theory Spec2Isabelle
  imports Complex_Main "HOL-Library.List_Lexorder" "HOL-Library.Char_ord"
begin

section \<open>Data model of spring_yaml_sanity.py\<close>

text \<open>
  The values that \<^verbatim>\<open>yaml.safe_load_all\<close> hands to the program. A Python \<^verbatim>\<open>float\<close> is kept
  by the number it denotes: every finite double is a rational, and the two infinities and
  nan are separate values. \<^verbatim>\<open>Scalar = Union[str, int, float, bool, None]\<close>.
\<close>

datatype pyfloat = Finite rat | PosInf | NegInf | NaN

datatype scalar = SNone | SBool bool | SInt int | SFloat pyfloat | SStr string

text \<open>
  A key of a \<^verbatim>\<open>dict\<close> that the parser builds is any hashable value: a string, an int, a bool,
  a float, \<^verbatim>\<open>None\<close>, or another object (a date, bytes); the alias \<^verbatim>\<open>YAML = Dict[str, Any]\<close> is
  an annotation that nothing enforces. The program does two things with a
  key: it looks it up, which goes by Python's hash and \<^verbatim>\<open>==\<close>, and it renders it with
  \<^verbatim>\<open>str\<close>. A float key carries the text \<^verbatim>\<open>str\<close> gives for it beside its value, and any other
  object carries a label that tells it from unequal objects and the text \<^verbatim>\<open>str\<close> gives.
\<close>

datatype pykey =
    KStr string
  | KInt int
  | KBool bool
  | KFloat pyfloat string
  | KNone
  | KOther string string

text \<open>
  A document node is a scalar, a \<^verbatim>\<open>dict\<close>, a \<^verbatim>\<open>list\<close>, or some other Python object (a date,
  a set, bytes) that the program only passes around; such an object is kept opaque under
  a label. A \<^verbatim>\<open>dict\<close> is an association list in insertion order.
\<close>

datatype yaml =
    YScalar scalar
  | YDict "(pykey \<times> yaml) list"
  | YList "yaml list"
  | YOther string

type_synonym ydict = "(pykey \<times> yaml) list"

type_synonym flat = "(string \<times> scalar) list"

text \<open>
  \<^verbatim>\<open>d[k] = v\<close> on a \<^verbatim>\<open>dict\<close> with string keys, as \<^verbatim>\<open>flat\<close> is: an existing key keeps its
  position, a new key goes last.
\<close>

fun dict_set :: "'k \<Rightarrow> 'v \<Rightarrow> ('k \<times> 'v) list \<Rightarrow> ('k \<times> 'v) list" where
  "dict_set k v [] = [(k, v)]"
| "dict_set k v ((k', v') # m) =
     (if k' = k then (k, v) # m else (k', v') # dict_set k v m)"

text \<open>
  When two keys are the same key of a \<^verbatim>\<open>dict\<close>: numbers by value, whatever their type
  (\<^verbatim>\<open>1\<close>, \<^verbatim>\<open>True\<close> and \<^verbatim>\<open>1.0\<close> are one key), strings and other objects among their own kind.
  A nan is equal to no key: the program only ever compares keys of different documents,
  which are different objects.
\<close>

datatype key_class = CNum pyfloat | CStr string | CNone | COther string

fun class_of :: "pykey \<Rightarrow> key_class" where
  "class_of (KStr s) = CStr s"
| "class_of (KInt i) = CNum (Finite (of_int i))"
| "class_of (KBool b) = CNum (Finite (if b then 1 else 0))"
| "class_of (KFloat f r) = CNum f"
| "class_of KNone = CNone"
| "class_of (KOther i r) = COther i"

definition key_eq :: "pykey \<Rightarrow> pykey \<Rightarrow> bool" where
  "key_eq a b = (class_of a = class_of b \<and> class_of a \<noteq> CNum NaN)"

text \<open>
  \<^verbatim>\<open>k in d\<close> with \<^verbatim>\<open>d[k]\<close>, and \<^verbatim>\<open>d[k] = v\<close>, on a \<^verbatim>\<open>dict\<close> of the parser: an assignment to a
  key that is there replaces the value and keeps the key object that was stored first.
\<close>

fun ydict_get :: "(pykey \<times> 'v) list \<Rightarrow> pykey \<Rightarrow> 'v option" where
  "ydict_get [] k = None"
| "ydict_get ((k', v') # m) k = (if key_eq k' k then Some v' else ydict_get m k)"

fun ydict_set :: "pykey \<Rightarrow> 'v \<Rightarrow> (pykey \<times> 'v) list \<Rightarrow> (pykey \<times> 'v) list" where
  "ydict_set k v [] = [(k, v)]"
| "ydict_set k v ((k', v') # m) =
     (if key_eq k' k then (k', v) # m else (k', v') # ydict_set k v m)"

text \<open>No two entries have the same key: what every \<^verbatim>\<open>dict\<close> satisfies.\<close>

fun distinct_keys :: "(pykey \<times> 'v) list \<Rightarrow> bool" where
  "distinct_keys [] = True"
| "distinct_keys ((k, v) # m) = (ydict_get m k = None \<and> distinct_keys m)"

section \<open>Scalars\<close>

text \<open>\<^verbatim>\<open>is_scalar(v)\<close>: \<^verbatim>\<open>isinstance(v, (str, int, float, bool)) or v is None\<close>.\<close>

fun is_scalar :: "yaml \<Rightarrow> bool" where
  "is_scalar (YScalar s) = True"
| "is_scalar (YDict kvs) = False"
| "is_scalar (YList vs) = False"
| "is_scalar (YOther x) = False"

text \<open>
  Python's \<^verbatim>\<open>==\<close> on two scalars, as \<^verbatim>\<open>base_flat[key] == prof_val\<close> uses it. \<^verbatim>\<open>bool\<close> is a
  subclass of \<^verbatim>\<open>int\<close> (\<^verbatim>\<open>True\<close> is 1, \<^verbatim>\<open>False\<close> is 0), numbers of different types are compared
  by value, nan equals nothing, and a string or \<^verbatim>\<open>None\<close> equals only its own kind.
\<close>

fun num_of :: "scalar \<Rightarrow> pyfloat option" where
  "num_of (SBool b) = Some (Finite (if b then 1 else 0))"
| "num_of (SInt i) = Some (Finite (of_int i))"
| "num_of (SFloat f) = Some f"
| "num_of SNone = None"
| "num_of (SStr s) = None"

fun py_eq :: "scalar \<Rightarrow> scalar \<Rightarrow> bool" where
  "py_eq SNone SNone = True"
| "py_eq (SStr s) (SStr t) = (s = t)"
| "py_eq a b =
     (case (num_of a, num_of b) of
        (Some x, Some y) \<Rightarrow> x \<noteq> NaN \<and> x = y
      | _ \<Rightarrow> False)"

section \<open>Document merger\<close>

text \<open>
  \<^verbatim>\<open>deep_merge(a, b)\<close>. The first argument is \<^verbatim>\<open>out\<close>, which starts as the copy of \<^verbatim>\<open>a\<close>; the
  second is what is left of \<^verbatim>\<open>b.items()\<close>.
\<close>

function deep_merge :: "ydict \<Rightarrow> ydict \<Rightarrow> ydict" where
  "deep_merge out [] = out"
| "deep_merge out ((k, v) # b) =
     deep_merge
       (case (ydict_get out k, v) of
          (Some (YDict x), YDict y) \<Rightarrow> ydict_set k (YDict (deep_merge x y)) out
        | _ \<Rightarrow> ydict_set k v out)
       b"
  by pat_completeness auto
termination
  by (relation "measure (\<lambda>(out, b). size (YDict b))") auto

text \<open>
  Reading a file and parsing it is outside the program: \<open>fs path\<close> is what
  \<^verbatim>\<open>path.open\<close> and \<^verbatim>\<open>list(yaml.safe_load_all(f))\<close> give for a path, the list of documents or
  the exception raised.
\<close>

datatype load_error = LoadError string

type_synonym filesystem = "string \<Rightarrow> load_error + yaml list"

text \<open>The loop of \<^verbatim>\<open>load_yaml_merged\<close> over \<^verbatim>\<open>docs\<close>, from the current \<^verbatim>\<open>merged\<close>.\<close>

fun merge_docs :: "yaml list \<Rightarrow> ydict \<Rightarrow> ydict" where
  "merge_docs [] merged = merged"
| "merge_docs (d # docs) merged =
     (if d = YScalar SNone then merge_docs docs merged
      else merge_docs docs
        (deep_merge merged (case d of YDict m \<Rightarrow> m | _ \<Rightarrow> [(KStr ''_'', d)])))"

definition load_yaml_merged :: "filesystem \<Rightarrow> string \<Rightarrow> load_error + ydict" where
  "load_yaml_merged fs path =
     (case fs path of Inl e \<Rightarrow> Inl e | Inr docs \<Rightarrow> Inr (merge_docs docs []))"

section \<open>Path flattener\<close>

text \<open>\<^verbatim>\<open>str(i)\<close> for the index of \<^verbatim>\<open>enumerate\<close>: decimal digits, most significant first.\<close>

definition digit_char :: "nat \<Rightarrow> char" where
  "digit_char d = char_of (48 + d)"

fun str_nat :: "nat \<Rightarrow> string" where
  "str_nat n =
     (if n < 10 then [digit_char n] else str_nat (n div 10) @ [digit_char (n mod 10)])"

declare str_nat.simps [simp del]

text \<open>\<^verbatim>\<open>str(i)\<close> for an int, and \<^verbatim>\<open>str(k)\<close> for a key, which an f-string gives as well.\<close>

definition str_int :: "int \<Rightarrow> string" where
  "str_int i = (if i < 0 then ''-'' @ str_nat (nat (- i)) else str_nat (nat i))"

fun str_key :: "pykey \<Rightarrow> string" where
  "str_key (KStr s) = s"
| "str_key (KInt i) = str_int i"
| "str_key (KBool b) = (if b then ''True'' else ''False'')"
| "str_key (KFloat f r) = r"
| "str_key KNone = ''None''"
| "str_key (KOther i r) = r"

text \<open>The two \<^verbatim>\<open>key = ...\<close> lines of \<^verbatim>\<open>_walk\<close>.\<close>

definition dict_key :: "string \<Rightarrow> pykey \<Rightarrow> string" where
  "dict_key pfx k = (if pfx \<noteq> [] then pfx @ ''.'' @ str_key k else str_key k)"

definition list_key :: "string \<Rightarrow> nat \<Rightarrow> string" where
  "list_key pfx i =
     (if pfx \<noteq> [] then pfx @ ''['' @ str_nat i @ '']'' else ''['' @ str_nat i @ '']'')"

text \<open>
  \<^verbatim>\<open>_walk(node, pfx)\<close>, with the enclosing \<^verbatim>\<open>flat\<close> passed in and returned; \<open>walk_items\<close> is
  the loop over \<^verbatim>\<open>node.items()\<close> and \<open>walk_elems\<close> the loop over \<^verbatim>\<open>enumerate(node)\<close>. The
  equations follow the branches in their order: \<^verbatim>\<open>is_scalar(node)\<close>, \<^verbatim>\<open>dict\<close>, \<^verbatim>\<open>list\<close>, and
  the last \<^verbatim>\<open>else\<close>, which stores nothing.
\<close>

function walk :: "yaml \<Rightarrow> string \<Rightarrow> flat \<Rightarrow> flat"
  and walk_items :: "(pykey \<times> yaml) list \<Rightarrow> string \<Rightarrow> flat \<Rightarrow> flat"
  and walk_elems :: "yaml list \<Rightarrow> nat \<Rightarrow> string \<Rightarrow> flat \<Rightarrow> flat" where
  "walk (YScalar s) pfx flat = dict_set (if pfx \<noteq> [] then pfx else []) s flat"
| "walk (YDict kvs) pfx flat = walk_items kvs pfx flat"
| "walk (YList vs) pfx flat = walk_elems vs 0 pfx flat"
| "walk (YOther x) pfx flat = flat"
| "walk_items [] pfx flat = flat"
| "walk_items ((k, v) # kvs) pfx flat =
     walk_items kvs pfx (walk v (dict_key pfx k) flat)"
| "walk_elems [] i pfx flat = flat"
| "walk_elems (v # vs) i pfx flat =
     walk_elems vs (Suc i) pfx (walk v (list_key pfx i) flat)"
  by pat_completeness auto
termination
  by (relation "measure (\<lambda>x. case x of
        Inl (n, pfx, flat) \<Rightarrow> size n + 1
      | Inr (Inl (kvs, pfx, flat)) \<Rightarrow> size (YDict kvs)
      | Inr (Inr (vs, i, pfx, flat)) \<Rightarrow> size (YList vs))") auto

text \<open>
  The assignments \<^verbatim>\<open>flat[pfx] = node\<close> that \<^verbatim>\<open>_walk(node, pfx)\<close> executes, in order: the
  (path, value) pairs produced while flattening.
\<close>

function assigns :: "yaml \<Rightarrow> string \<Rightarrow> flat"
  and assigns_items :: "(pykey \<times> yaml) list \<Rightarrow> string \<Rightarrow> flat"
  and assigns_elems :: "yaml list \<Rightarrow> nat \<Rightarrow> string \<Rightarrow> flat" where
  "assigns (YScalar s) pfx = [(if pfx \<noteq> [] then pfx else [], s)]"
| "assigns (YDict kvs) pfx = assigns_items kvs pfx"
| "assigns (YList vs) pfx = assigns_elems vs 0 pfx"
| "assigns (YOther x) pfx = []"
| "assigns_items [] pfx = []"
| "assigns_items ((k, v) # kvs) pfx =
     assigns v (dict_key pfx k) @ assigns_items kvs pfx"
| "assigns_elems [] i pfx = []"
| "assigns_elems (v # vs) i pfx =
     assigns v (list_key pfx i) @ assigns_elems vs (Suc i) pfx"
  by pat_completeness auto
termination
  by (relation "measure (\<lambda>x. case x of
        Inl (n, pfx) \<Rightarrow> size n + 1
      | Inr (Inl (kvs, pfx)) \<Rightarrow> size (YDict kvs)
      | Inr (Inr (vs, i, pfx)) \<Rightarrow> size (YList vs))") auto

text \<open>\<^verbatim>\<open>flatten(data, prefix)\<close>; the program only calls it with the default prefix \<^verbatim>\<open>""\<close>.\<close>

definition flatten :: "yaml \<Rightarrow> string \<Rightarrow> flat" where
  "flatten data prefix = filter (\<lambda>(k, v). k \<noteq> []) (walk data prefix [])"

section \<open>Pair comparator and its callers\<close>

text \<open>
  The loop of \<^verbatim>\<open>compare_and_report\<close> that fills \<^verbatim>\<open>duplicates\<close>, and
  \<^verbatim>\<open>duplicates.sort(key=lambda kv: kv[0])\<close>, a stable sort. Strings are ordered
  lexicographically by character code, as Python orders \<^verbatim>\<open>str\<close> values.
\<close>

definition duplicates :: "flat \<Rightarrow> flat \<Rightarrow> flat" where
  "duplicates base_flat prof_flat =
     sort_key fst
       (filter (\<lambda>(key, prof_val).
            case map_of base_flat key of
              None \<Rightarrow> False
            | Some base_val \<Rightarrow> py_eq base_val prof_val)
          prof_flat)"

text \<open>
  What the program prints, one value per \<^verbatim>\<open>print\<close>. The texts themselves (\<^verbatim>\<open>repr\<close> of a
  value, cut to 80 characters) are not modelled: a line keeps what it is made from.
\<close>

datatype line =
    BaseLoadFailed string load_error
  | ProfileLoadFailed string load_error
  | DuplicateKey string string scalar
  | FolderHeader string
  | BaseHeader string
  | NoProfiles
  | NoDuplicates

text \<open>\<^verbatim>\<open>compare_and_report(base_path, profile_path)\<close>: the lines printed and the count returned.\<close>

definition compare_and_report :: "filesystem \<Rightarrow> string \<Rightarrow> string \<Rightarrow> line list \<times> nat" where
  "compare_and_report fs base_path profile_path =
     (case load_yaml_merged fs base_path of
        Inl e \<Rightarrow> ([BaseLoadFailed base_path e], 0)
      | Inr base_data \<Rightarrow>
          (case load_yaml_merged fs profile_path of
             Inl e \<Rightarrow> ([ProfileLoadFailed profile_path e], 0)
           | Inr prof_data \<Rightarrow>
               (let base_flat = flatten (YDict base_data) [];
                    prof_flat = flatten (YDict prof_data) [];
                    dups = duplicates base_flat prof_flat
                in (map (\<lambda>(key, val). DuplicateKey profile_path key val) dups,
                    length dups))))"

text \<open>
  The loop \<^verbatim>\<open>for prof in profiles: total += compare_and_report(base_path, prof)\<close> of
  \<^verbatim>\<open>process_folder\<close>, from the lines printed so far and the current \<^verbatim>\<open>total\<close>.
\<close>

fun compare_profiles ::
  "filesystem \<Rightarrow> string \<Rightarrow> string list \<Rightarrow> line list \<times> nat \<Rightarrow> line list \<times> nat" where
  "compare_profiles fs base_path [] acc = acc"
| "compare_profiles fs base_path (prof # profiles) acc =
     compare_profiles fs base_path profiles
       (fst acc @ fst (compare_and_report fs base_path prof),
        snd acc + snd (compare_and_report fs base_path prof))"

text \<open>
  A folder as \<^verbatim>\<open>process_folder\<close> finds it: its name, the first of
  \<^verbatim>\<open>application.yaml\<close> and \<^verbatim>\<open>application.yml\<close> that exists, and the profile files, sorted and
  without the base names.
\<close>

record folder =
  folder_name :: string
  base_file :: "string option"
  profile_files :: "string list"

definition process_folder :: "filesystem \<Rightarrow> folder \<Rightarrow> line list \<times> nat" where
  "process_folder fs f =
     (case base_file f of
        None \<Rightarrow> ([], 0)
      | Some base_path \<Rightarrow>
          (if profile_files f = []
           then ([FolderHeader (folder_name f), BaseHeader base_path, NoProfiles], 0)
           else
             (let r = compare_profiles fs base_path (profile_files f)
                        ([FolderHeader (folder_name f), BaseHeader base_path], 0)
              in (if snd r = 0 then (fst r @ [NoDuplicates], 0) else r))))"

text \<open>\<^verbatim>\<open>walk_and_check\<close>, over the folders that \<^verbatim>\<open>os.walk\<close> yields with a base file.\<close>

fun walk_and_check :: "filesystem \<Rightarrow> folder list \<Rightarrow> line list \<times> nat \<Rightarrow> line list \<times> nat" where
  "walk_and_check fs [] acc = acc"
| "walk_and_check fs (f # folders) acc =
     walk_and_check fs folders
       (fst acc @ fst (process_folder fs f), snd acc + snd (process_folder fs f))"

section \<open>The canonical rendering of a path\<close>

text \<open>
  The rendering as the specification words it: a path is a sequence of segments, a field
  name or an index; a field is joined to the current path with a dot, with no dot when the
  current path is empty, and an index is appended as \<^verbatim>\<open>[i]\<close> with no dot before it.
\<close>

datatype segment = Field string | Index nat

fun render_segment :: "string \<Rightarrow> segment \<Rightarrow> string" where
  "render_segment cur (Field k) = (if cur = [] then k else cur @ ''.'' @ k)"
| "render_segment cur (Index i) = cur @ ''['' @ str_nat i @ '']''"

definition render_path :: "segment list \<Rightarrow> string" where
  "render_path segs = foldl render_segment [] segs"

text \<open>The leaf scalars of a document with their positions, in document order.\<close>

function leaves :: "yaml \<Rightarrow> segment list \<Rightarrow> (segment list \<times> scalar) list"
  and leaves_items :: "(pykey \<times> yaml) list \<Rightarrow> segment list \<Rightarrow> (segment list \<times> scalar) list"
  and leaves_elems :: "yaml list \<Rightarrow> nat \<Rightarrow> segment list \<Rightarrow> (segment list \<times> scalar) list"
  where
  "leaves (YScalar s) pos = [(pos, s)]"
| "leaves (YDict kvs) pos = leaves_items kvs pos"
| "leaves (YList vs) pos = leaves_elems vs 0 pos"
| "leaves (YOther x) pos = []"
| "leaves_items [] pos = []"
| "leaves_items ((k, v) # kvs) pos =
     leaves v (pos @ [Field (str_key k)]) @ leaves_items kvs pos"
| "leaves_elems [] i pos = []"
| "leaves_elems (v # vs) i pos = leaves v (pos @ [Index i]) @ leaves_elems vs (Suc i) pos"
  by pat_completeness auto
termination
  by (relation "measure (\<lambda>x. case x of
        Inl (n, pos) \<Rightarrow> size n + 1
      | Inr (Inl (kvs, pos)) \<Rightarrow> size (YDict kvs)
      | Inr (Inr (vs, i, pos)) \<Rightarrow> size (YList vs))") auto

text \<open>Storing a sequence of assignments into a \<^verbatim>\<open>dict\<close>, one after the other.\<close>

definition store_all :: "('k \<times> 'v) list \<Rightarrow> ('k \<times> 'v) list \<Rightarrow> ('k \<times> 'v) list" where
  "store_all kvs m = fold (\<lambda>(k, v). dict_set k v) kvs m"

text \<open>
  A rendered key that is not empty and holds neither a dot nor an opening bracket; and a
  document in which every key renders so, and no two keys of one mapping render alike.
\<close>

definition plain_key :: "string \<Rightarrow> bool" where
  "plain_key k = (k \<noteq> [] \<and> CHR ''.'' \<notin> set k \<and> CHR ''['' \<notin> set k)"

fun plain_keys :: "yaml \<Rightarrow> bool"
  and plain_items :: "(pykey \<times> yaml) list \<Rightarrow> bool"
  and plain_elems :: "yaml list \<Rightarrow> bool" where
  "plain_keys (YScalar s) = True"
| "plain_keys (YDict kvs) =
     (distinct (map (\<lambda>kv. str_key (fst kv)) kvs) \<and> plain_items kvs)"
| "plain_keys (YList vs) = plain_elems vs"
| "plain_keys (YOther x) = True"
| "plain_items [] = True"
| "plain_items (kv # kvs) =
     (plain_key (str_key (fst kv)) \<and> plain_keys (snd kv) \<and> plain_items kvs)"
| "plain_elems [] = True"
| "plain_elems (v # vs) = (plain_keys v \<and> plain_elems vs)"

text \<open>What may follow the path of a node in the path of a leaf below it: nothing, or a
  segment, which starts with a dot or an opening bracket.\<close>

definition tail_ok :: "string \<Rightarrow> bool" where
  "tail_ok s = (s = [] \<or> hd s = CHR ''.'' \<or> hd s = CHR ''['')"

text \<open>The number that a string of decimal digits denotes.\<close>

definition digits_val :: "string \<Rightarrow> nat" where
  "digits_val s = foldl (\<lambda>a c. 10 * a + (of_char c - 48)) 0 s"

section \<open>Properties of the helpers\<close>

lemma key_eq_sym: "key_eq a b \<Longrightarrow> key_eq b a"
  by (auto simp: key_eq_def)

lemma key_eq_left: "key_eq a b \<Longrightarrow> key_eq a c = key_eq b c"
  by (auto simp: key_eq_def)

lemma key_eq_right: "key_eq a b \<Longrightarrow> key_eq c a = key_eq c b"
  by (auto simp: key_eq_def)

lemma ydict_get_cong: "key_eq a b \<Longrightarrow> ydict_get m a = ydict_get m b"
  by (induction m) (auto simp: key_eq_right)

lemma ydict_get_set:
  "ydict_get (ydict_set k v m) k' = (if key_eq k k' then Some v else ydict_get m k')"
proof (induction m)
  case Nil
  show ?case by simp
next
  case (Cons kv m)
  obtain k0 v0 where kv: "kv = (k0, v0)" by (cases kv)
  show ?case
  proof (cases "key_eq k0 k")
    case True
    then show ?thesis using kv by (simp add: key_eq_left)
  next
    case False
    have "\<not> (key_eq k0 k' \<and> key_eq k k')"
      using False by (auto simp: key_eq_def)
    then show ?thesis using False kv Cons.IH by auto
  qed
qed

lemma keys_dict_set: "fst ` set (dict_set k v m) = insert k (fst ` set m)"
  by (induction m) force+

lemma distinct_dict_set: "distinct (map fst m) \<Longrightarrow> distinct (map fst (dict_set k v m))"
  by (induction m) (auto simp: keys_dict_set)

lemma distinct_map_sort_key: "distinct (map f (sort_key f xs)) = distinct (map f xs)"
  by (simp add: distinct_map)

lemma merge_docs_append: "merge_docs (xs @ ys) m = merge_docs ys (merge_docs xs m)"
  by (induction xs arbitrary: m) auto

lemma merge_docs_null: "\<forall>d\<in>set docs. d = YScalar SNone \<Longrightarrow> merge_docs docs m = m"
  by (induction docs) auto

lemma str_nat_small:
  "str_nat 0 = ''0''" "str_nat (Suc 0) = ''1''" "str_nat (Suc (Suc 0)) = ''2''"
  by code_simp+

lemma str_int_small: "str_int 1 = ''1''" "str_int (- 1) = ''-1''"
  by code_simp+

lemma distinct_store_all:
  "distinct (map fst m) \<Longrightarrow> distinct (map fst (store_all kvs m))"
  by (induction kvs arbitrary: m) (auto simp: store_all_def distinct_dict_set)

lemma walk_store:
  "walk n pfx flat = store_all (assigns n pfx) flat"
  "walk_items kvs pfx flat = store_all (assigns_items kvs pfx) flat"
  "walk_elems vs i pfx flat = store_all (assigns_elems vs i pfx) flat"
  by (induction n pfx flat and kvs pfx flat and vs i pfx flat
      rule: walk_walk_items_walk_elems.induct)
     (simp_all add: store_all_def)

lemma distinct_flatten: "distinct (map fst (flatten D prefix))"
  by (simp add: flatten_def walk_store distinct_store_all distinct_map_filter)

lemma dict_key_render:
  "dict_key (render_path pos) k = render_path (pos @ [Field (str_key k)])"
  by (simp add: dict_key_def render_path_def)

lemma list_key_render: "list_key (render_path pos) i = render_path (pos @ [Index i])"
  by (simp add: list_key_def render_path_def)

lemma assigns_leaves:
  "assigns n (render_path pos) = map (\<lambda>(p, s). (render_path p, s)) (leaves n pos)"
  "assigns_items kvs (render_path pos) =
     map (\<lambda>(p, s). (render_path p, s)) (leaves_items kvs pos)"
  "assigns_elems vs i (render_path pos) =
     map (\<lambda>(p, s). (render_path p, s)) (leaves_elems vs i pos)"
  by (induction n pos and kvs pos and vs i pos rule: leaves_leaves_items_leaves_elems.induct)
     (simp_all add: dict_key_render list_key_render)

lemma compare_profiles_append:
  "compare_profiles fs bp (xs @ ys) acc =
     compare_profiles fs bp ys (compare_profiles fs bp xs acc)"
  by (induction xs arbitrary: acc) auto

lemma walk_and_check_append:
  "walk_and_check fs (xs @ ys) acc = walk_and_check fs ys (walk_and_check fs xs acc)"
  by (induction xs arbitrary: acc) auto

lemma compare_profiles_count:
  "snd (compare_profiles fs bp ps acc) =
     snd acc + sum_list (map (\<lambda>p. snd (compare_and_report fs bp p)) ps)"
  by (induction ps arbitrary: acc) auto

lemma compare_base_failed:
  "fs bp = Inl e \<Longrightarrow> compare_and_report fs bp pp = ([BaseLoadFailed bp e], 0)"
  by (simp add: compare_and_report_def load_yaml_merged_def)

lemma compare_profile_failed:
  "fs bp = Inr docs \<Longrightarrow> fs pp = Inl e \<Longrightarrow>
   compare_and_report fs bp pp = ([ProfileLoadFailed pp e], 0)"
  by (simp add: compare_and_report_def load_yaml_merged_def)

lemma compare_failed_count:
  "fs bp = Inl e \<or> fs pp = Inl e \<Longrightarrow> snd (compare_and_report fs bp pp) = 0"
  by (cases "fs bp") (auto simp: compare_and_report_def load_yaml_merged_def)

lemma process_folder_base_failed:
  assumes "base_file f = Some bp" and "fs bp = Inl e"
  shows "snd (process_folder fs f) = 0"
  using assms
  by (simp add: process_folder_def Let_def compare_profiles_count compare_base_failed)

subsection \<open>Decimal digits and the shape of paths\<close>

lemma of_char_digit: "d < 10 \<Longrightarrow> of_char (digit_char d) = 48 + d"
  by (simp add: digit_char_def)

lemma digit_not_bracket: "d < 10 \<Longrightarrow> CHR '']'' \<noteq> digit_char d"
proof
  assume d: "d < 10" and e: "CHR '']'' = digit_char d"
  from e have "(of_char (digit_char d) :: nat) = of_char (CHR '']'')" by simp
  with d show False by (simp add: of_char_digit)
qed

lemma str_nat_no_bracket: "CHR '']'' \<notin> set (str_nat n)"
proof (induction n rule: str_nat.induct)
  case (1 n)
  show ?case
  proof (cases "n < 10")
    case True
    then show ?thesis by (simp add: str_nat.simps[of n] digit_not_bracket)
  next
    case False
    then show ?thesis using 1 by (simp add: str_nat.simps[of n] digit_not_bracket)
  qed
qed

lemma digits_val_str_nat: "digits_val (str_nat n) = n"
proof (induction n rule: str_nat.induct)
  case (1 n)
  show ?case
  proof (cases "n < 10")
    case True
    then show ?thesis by (simp add: str_nat.simps[of n] digits_val_def of_char_digit)
  next
    case False
    then have "digits_val (str_nat (n div 10)) = n div 10" using 1 by simp
    then show ?thesis using False
      by (simp add: str_nat.simps[of n] digits_val_def of_char_digit)
  qed
qed

lemma str_nat_inj: "str_nat i = str_nat j \<Longrightarrow> i = j"
  by (metis digits_val_str_nat)

lemma takeWhile_stop:
  assumes "\<forall>c\<in>set k. P c" and "s = [] \<or> \<not> P (hd s)"
  shows "takeWhile P (k @ s) = k"
proof -
  from assms(1) have "takeWhile P (k @ s) = k @ takeWhile P s"
    by (intro takeWhile_append2) simp
  moreover from assms(2) have "takeWhile P s = []"
    by (simp add: takeWhile_eq_Nil_iff)
  ultimately show ?thesis by simp
qed

lemma key_split:
  assumes "plain_key k" "plain_key k'" "tail_ok s" "tail_ok s'" "k @ s = k' @ s'"
  shows "k = k'"
proof -
  let ?P = "\<lambda>c. c \<noteq> CHR ''.'' \<and> c \<noteq> CHR ''[''"
  have a: "takeWhile ?P (k @ s) = k"
    using assms(1,3) by (intro takeWhile_stop) (auto simp: plain_key_def tail_ok_def)
  have b: "takeWhile ?P (k' @ s') = k'"
    using assms(2,4) by (intro takeWhile_stop) (auto simp: plain_key_def tail_ok_def)
  from a b assms(5) show ?thesis by simp
qed

lemma index_split:
  assumes "str_nat i @ '']'' @ s = str_nat j @ '']'' @ s'"
  shows "i = j"
proof -
  let ?P = "\<lambda>c. c \<noteq> CHR '']''"
  have a: "takeWhile ?P (str_nat i @ ('']'' @ s)) = str_nat i"
    using str_nat_no_bracket[of i] by (intro takeWhile_stop) auto
  have b: "takeWhile ?P (str_nat j @ ('']'' @ s')) = str_nat j"
    using str_nat_no_bracket[of j] by (intro takeWhile_stop) auto
  from a b assms have "str_nat i = str_nat j" by simp
  then show ?thesis by (rule str_nat_inj)
qed

lemma list_key_eq: "list_key pfx i = pfx @ ''['' @ str_nat i @ '']''"
  by (simp add: list_key_def)

lemma list_key_nonempty: "list_key pfx i \<noteq> []"
  by (simp add: list_key_eq)

lemma path_shape:
  "pfx \<noteq> [] \<Longrightarrow> p \<in> fst ` set (assigns n pfx) \<Longrightarrow> \<exists>s. p = pfx @ s \<and> tail_ok s"
  "pfx \<noteq> [] \<or> (\<forall>k\<in>fst ` set kvs. str_key k \<noteq> []) \<Longrightarrow>
   p \<in> fst ` set (assigns_items kvs pfx) \<Longrightarrow>
     \<exists>k s. k \<in> fst ` set kvs \<and> p = dict_key pfx k @ s \<and> tail_ok s"
  "p \<in> fst ` set (assigns_elems vs i pfx) \<Longrightarrow> \<exists>j s. i \<le> j \<and> p = list_key pfx j @ s"
proof (induction n pfx and kvs pfx and vs i pfx arbitrary: p and p and p
    rule: assigns_assigns_items_assigns_elems.induct)
  case (1 s pfx)
  then show ?case by (simp add: tail_ok_def)
next
  case (2 kvs pfx)
  from "2.prems" have "p \<in> fst ` set (assigns_items kvs pfx)" by simp
  with "2.IH"[of p] "2.prems"(1)
  obtain k s where ks: "p = dict_key pfx k @ s" "tail_ok s" by blast
  with "2.prems"(1) have "p = pfx @ (''.'' @ str_key k @ s)" "tail_ok (''.'' @ str_key k @ s)"
    by (simp_all add: dict_key_def tail_ok_def)
  then show ?case by blast
next
  case (3 vs pfx)
  from "3.prems" have "p \<in> fst ` set (assigns_elems vs 0 pfx)" by simp
  with "3.IH"[of p] obtain j s where "p = list_key pfx j @ s" by blast
  then have "p = pfx @ (''['' @ str_nat j @ '']'' @ s)" "tail_ok (''['' @ str_nat j @ '']'' @ s)"
    by (simp_all add: list_key_eq tail_ok_def)
  then show ?case by blast
next
  case (4 x pfx)
  then show ?case by simp
next
  case (5 pfx)
  then show ?case by simp
next
  case (6 k v kvs pfx)
  from "6.prems"(2) consider
      (here) "p \<in> fst ` set (assigns v (dict_key pfx k))"
    | (later) "p \<in> fst ` set (assigns_items kvs pfx)"
    by auto
  then show ?case
  proof cases
    case here
    have ne: "dict_key pfx k \<noteq> []" using "6.prems"(1) by (auto simp: dict_key_def)
    from "6.IH"(1)[OF ne here] obtain s where "p = dict_key pfx k @ s" "tail_ok s" by blast
    then have "k \<in> fst ` set ((k, v) # kvs) \<and> p = dict_key pfx k @ s \<and> tail_ok s" by simp
    then show ?thesis by blast
  next
    case later
    have c: "pfx \<noteq> [] \<or> (\<forall>k\<in>fst ` set kvs. str_key k \<noteq> [])" using "6.prems"(1) by auto
    from "6.IH"(2)[OF c later] obtain k' s where
      "k' \<in> fst ` set kvs" "p = dict_key pfx k' @ s" "tail_ok s" by blast
    then have "k' \<in> fst ` set ((k, v) # kvs) \<and> p = dict_key pfx k' @ s \<and> tail_ok s" by simp
    then show ?thesis by blast
  qed
next
  case (7 i pfx)
  then show ?case by simp
next
  case (8 v vs i pfx)
  from "8.prems" consider
      (here) "p \<in> fst ` set (assigns v (list_key pfx i))"
    | (later) "p \<in> fst ` set (assigns_elems vs (Suc i) pfx)"
    by auto
  then show ?case
  proof cases
    case here
    from "8.IH"(1)[OF list_key_nonempty here] obtain s where "p = list_key pfx i @ s" by blast
    then have "i \<le> i \<and> p = list_key pfx i @ s" by simp
    then show ?thesis by blast
  next
    case later
    from "8.IH"(2)[OF later] obtain j s where "Suc i \<le> j" "p = list_key pfx j @ s" by blast
    then have "i \<le> j \<and> p = list_key pfx j @ s" by simp
    then show ?thesis by blast
  qed
qed

lemma plain_items_keys:
  "plain_items kvs \<Longrightarrow> k \<in> fst ` set kvs \<Longrightarrow> plain_key (str_key k)"
  by (induction kvs) auto

lemma dict_key_cancel:
  "dict_key pfx k @ s = dict_key pfx k' @ s' \<Longrightarrow> str_key k @ s = str_key k' @ s'"
  by (cases "pfx = []") (simp_all add: dict_key_def)

lemma items_disjoint:
  assumes knew: "str_key k \<notin> (\<lambda>kv. str_key (fst kv)) ` set kvs"
    and pk: "plain_key (str_key k)" and pks: "plain_items kvs"
  shows "fst ` set (assigns v (dict_key pfx k)) \<inter> fst ` set (assigns_items kvs pfx) = {}"
proof (rule ccontr)
  assume "\<not> ?thesis"
  then obtain p where here: "p \<in> fst ` set (assigns v (dict_key pfx k))"
    and later: "p \<in> fst ` set (assigns_items kvs pfx)" by blast
  have ne: "dict_key pfx k \<noteq> []" using pk by (simp add: dict_key_def plain_key_def)
  from path_shape(1)[OF ne here] obtain s where s: "p = dict_key pfx k @ s" "tail_ok s"
    by blast
  have "\<forall>k\<in>fst ` set kvs. str_key k \<noteq> []"
  proof
    fix k' assume "k' \<in> fst ` set kvs"
    from plain_items_keys[OF pks this] show "str_key k' \<noteq> []" by (simp add: plain_key_def)
  qed
  then have c: "pfx \<noteq> [] \<or> (\<forall>k\<in>fst ` set kvs. str_key k \<noteq> [])" by (rule disjI2)
  from path_shape(2)[OF c later] obtain k' s' where
    k': "k' \<in> fst ` set kvs" "p = dict_key pfx k' @ s'" "tail_ok s'" by blast
  from s(1) k'(2) have "dict_key pfx k @ s = dict_key pfx k' @ s'" by simp
  then have "str_key k @ s = str_key k' @ s'" by (rule dict_key_cancel)
  with pk plain_items_keys[OF pks k'(1)] s(2) k'(3) have "str_key k = str_key k'"
    by (rule key_split)
  moreover from k'(1) have "str_key k' \<in> (\<lambda>kv. str_key (fst kv)) ` set kvs" by force
  ultimately show False using knew by simp
qed

lemma elems_disjoint:
  "fst ` set (assigns v (list_key pfx i)) \<inter> fst ` set (assigns_elems vs (Suc i) pfx) = {}"
proof (rule ccontr)
  assume "\<not> ?thesis"
  then obtain p where here: "p \<in> fst ` set (assigns v (list_key pfx i))"
    and later: "p \<in> fst ` set (assigns_elems vs (Suc i) pfx)" by blast
  from path_shape(1)[OF list_key_nonempty here] obtain s where s: "p = list_key pfx i @ s"
    by blast
  from path_shape(3)[OF later] obtain j s' where j: "Suc i \<le> j" "p = list_key pfx j @ s'"
    by blast
  from s j(2) have "str_nat i @ '']'' @ s = str_nat j @ '']'' @ s'"
    by (simp add: list_key_eq)
  then have "i = j" by (rule index_split)
  with j(1) show False by simp
qed

lemma distinct_fst_append:
  "distinct (map fst xs) \<Longrightarrow> distinct (map fst ys) \<Longrightarrow> fst ` set xs \<inter> fst ` set ys = {} \<Longrightarrow>
   distinct (map fst (xs @ ys))"
  by simp

lemma assigns_distinct:
  "plain_keys n \<Longrightarrow> distinct (map fst (assigns n pfx))"
  "distinct (map (\<lambda>kv. str_key (fst kv)) kvs) \<Longrightarrow> plain_items kvs \<Longrightarrow>
     distinct (map fst (assigns_items kvs pfx))"
  "plain_elems vs \<Longrightarrow> distinct (map fst (assigns_elems vs i pfx))"
proof (induction n pfx and kvs pfx and vs i pfx
    rule: assigns_assigns_items_assigns_elems.induct)
  case (1 s pfx)
  show ?case by simp
next
  case (2 kvs pfx)
  then show ?case by simp
next
  case (3 vs pfx)
  then show ?case by simp
next
  case (4 x pfx)
  show ?case by simp
next
  case (5 pfx)
  show ?case by simp
next
  case (6 k v kvs pfx)
  from "6.prems"(1) have dk: "distinct (map (\<lambda>kv. str_key (fst kv)) kvs)"
    and knew: "str_key k \<notin> (\<lambda>kv. str_key (fst kv)) ` set kvs"
    by simp_all
  from "6.prems"(2) have pk: "plain_key (str_key k)" and pv: "plain_keys v"
    and pks: "plain_items kvs"
    by simp_all
  have d1: "distinct (map fst (assigns v (dict_key pfx k)))"
    using "6.IH"(1)[OF pv] .
  have d2: "distinct (map fst (assigns_items kvs pfx))"
    using "6.IH"(2)[OF dk pks] .
  have "distinct (map fst (assigns v (dict_key pfx k) @ assigns_items kvs pfx))"
    using d1 d2 items_disjoint[OF knew pk pks] by (rule distinct_fst_append)
  then show ?case by simp
next
  case (7 i pfx)
  show ?case by simp
next
  case (8 v vs i pfx)
  from "8.prems" have pv: "plain_keys v" and ps: "plain_elems vs" by simp_all
  have d1: "distinct (map fst (assigns v (list_key pfx i)))"
    using "8.IH"(1)[OF pv] .
  have d2: "distinct (map fst (assigns_elems vs (Suc i) pfx))"
    using "8.IH"(2)[OF ps] .
  have "distinct (map fst (assigns v (list_key pfx i) @ assigns_elems vs (Suc i) pfx))"
    using d1 d2 elems_disjoint by (rule distinct_fst_append)
  then show ?case by simp
qed

section \<open>The comparator\<close>

text \<open>
  Claim C1. For flattened documents (no path twice in the profile), a pair is reported
  exactly when the profile holds it, the base holds the same path, and the two values are
  equal under \<^verbatim>\<open>==\<close>; each path is reported at most once, and every reported path is a path
  of the profile, so a path of the base alone is never reported.
\<close>

theorem duplicates_exact:
  assumes "distinct (map fst prof_flat)"
  shows "((key, val) \<in> set (duplicates base_flat prof_flat) \<longleftrightarrow>
            map_of prof_flat key = Some val \<and>
            (\<exists>base_val. map_of base_flat key = Some base_val \<and> py_eq base_val val)) \<and>
         distinct (map fst (duplicates base_flat prof_flat)) \<and>
         fst ` set (duplicates base_flat prof_flat) \<subseteq> fst ` set prof_flat"
proof -
  have "(key, val) \<in> set (duplicates base_flat prof_flat) \<longleftrightarrow>
          (key, val) \<in> set prof_flat \<and>
          (\<exists>base_val. map_of base_flat key = Some base_val \<and> py_eq base_val val)"
    by (auto simp: duplicates_def split: option.splits)
  moreover have "(key, val) \<in> set prof_flat \<longleftrightarrow> map_of prof_flat key = Some val"
    using assms by simp
  moreover have "distinct (map fst (duplicates base_flat prof_flat))"
    using assms by (simp add: duplicates_def distinct_map_sort_key distinct_map_filter)
  moreover have "fst ` set (duplicates base_flat prof_flat) \<subseteq> fst ` set prof_flat"
    by (auto simp: duplicates_def)
  ultimately show ?thesis by simp
qed

theorem duplicates_exact_witness:
  "distinct (map fst [(''server.port'', SInt 8080), (''server.host'', SStr ''b'')]) \<and>
   (''server.port'', SInt 8080) \<in> set (duplicates
       [(''server.port'', SInt 8080), (''server.host'', SStr ''a''), (''server.name'', SStr ''n'')]
       [(''server.port'', SInt 8080), (''server.host'', SStr ''b'')]) \<and>
   (''server.host'', SStr ''b'') \<notin> set (duplicates
       [(''server.port'', SInt 8080), (''server.host'', SStr ''a''), (''server.name'', SStr ''n'')]
       [(''server.port'', SInt 8080), (''server.host'', SStr ''b'')])"
  using duplicates_exact [of "[(''server.port'', SInt 8080), (''server.host'', SStr ''b'')]"
      "''server.port''" "SInt 8080"
      "[(''server.port'', SInt 8080), (''server.host'', SStr ''a''), (''server.name'', SStr ''n'')]"]
    duplicates_exact [of "[(''server.port'', SInt 8080), (''server.host'', SStr ''b'')]"
      "''server.host''" "SStr ''b''"
      "[(''server.port'', SInt 8080), (''server.host'', SStr ''a''), (''server.name'', SStr ''n'')]"]
  by simp

text \<open>
  Claim C6. The findings come out sorted by path, ascending in the lexicographic order of
  strings.
\<close>

theorem duplicates_sorted: "sorted (map fst (duplicates base_flat prof_flat))"
  by (simp add: duplicates_def)

theorem duplicates_sorted_witness:
  "sorted (map fst (duplicates
      [(''b'', SInt 1), (''a.c'', SInt 2), (''a[0]'', SInt 3), (''a'', SInt 4)]
      [(''b'', SInt 1), (''a[0]'', SInt 3), (''a.c'', SInt 2), (''a'', SInt 4)])) \<and>
   duplicates
      [(''b'', SInt 1), (''a.c'', SInt 2), (''a[0]'', SInt 3), (''a'', SInt 4)]
      [(''b'', SInt 1), (''a[0]'', SInt 3), (''a.c'', SInt 2), (''a'', SInt 4)]
     = [(''a'', SInt 4), (''a.c'', SInt 2), (''a[0]'', SInt 3), (''b'', SInt 1)]"
  using duplicates_sorted [of
      "[(''b'', SInt 1), (''a.c'', SInt 2), (''a[0]'', SInt 3), (''a'', SInt 4)]"
      "[(''b'', SInt 1), (''a[0]'', SInt 3), (''a.c'', SInt 2), (''a'', SInt 4)]"]
  by (simp add: duplicates_def)

text \<open>
  Claim C10. Whatever else the two documents hold, a path at which the base holds the
  integer 1 and the profile holds \<^verbatim>\<open>True\<close>, or the other way round, is reported; so it is for 0
  and \<^verbatim>\<open>False\<close>, and for every integer against the float of the same value. A path held by
  both is reported exactly when \<^verbatim>\<open>==\<close> holds the two values equal: 2 against \<^verbatim>\<open>True\<close>, 8
  against 8.5 and the string \<^verbatim>\<open>"1"\<close> against 1 are not reported. The last equation runs two
  files through the whole comparison.
\<close>

theorem cross_kind_equal_values_are_duplicates:
  "((key, SBool True) \<in> set prof_flat \<and> map_of base_flat key = Some (SInt 1) \<longrightarrow>
      (key, SBool True) \<in> set (duplicates base_flat prof_flat)) \<and>
   ((key, SInt 1) \<in> set prof_flat \<and> map_of base_flat key = Some (SBool True) \<longrightarrow>
      (key, SInt 1) \<in> set (duplicates base_flat prof_flat)) \<and>
   ((key, SBool False) \<in> set prof_flat \<and> map_of base_flat key = Some (SInt 0) \<longrightarrow>
      (key, SBool False) \<in> set (duplicates base_flat prof_flat)) \<and>
   ((key, SInt 0) \<in> set prof_flat \<and> map_of base_flat key = Some (SBool False) \<longrightarrow>
      (key, SInt 0) \<in> set (duplicates base_flat prof_flat)) \<and>
   ((key, SFloat (Finite (of_int i))) \<in> set prof_flat \<and> map_of base_flat key = Some (SInt i) \<longrightarrow>
      (key, SFloat (Finite (of_int i))) \<in> set (duplicates base_flat prof_flat)) \<and>
   ((key, SInt i) \<in> set prof_flat \<and> map_of base_flat key = Some (SFloat (Finite (of_int i))) \<longrightarrow>
      (key, SInt i) \<in> set (duplicates base_flat prof_flat)) \<and>
   ((key, val) \<in> set prof_flat \<and> map_of base_flat key = Some base_val \<longrightarrow>
      ((key, val) \<in> set (duplicates base_flat prof_flat) \<longleftrightarrow> py_eq base_val val)) \<and>
   py_eq (SInt 1) (SBool True) \<and> py_eq (SBool True) (SInt 1) \<and>
   py_eq (SInt 0) (SBool False) \<and> py_eq (SBool False) (SInt 0) \<and>
   py_eq (SInt i) (SFloat (Finite (of_int i))) \<and> py_eq (SFloat (Finite (of_int i))) (SInt i) \<and>
   duplicates [(''feature.on'', SInt 1)] [(''feature.on'', SBool True)]
     = [(''feature.on'', SBool True)] \<and>
   duplicates [(''feature.on'', SBool True)] [(''feature.on'', SInt 1)]
     = [(''feature.on'', SInt 1)] \<and>
   duplicates [(''feature.off'', SInt 0)] [(''feature.off'', SBool False)]
     = [(''feature.off'', SBool False)] \<and>
   duplicates [(''server.port'', SInt 8080)] [(''server.port'', SFloat (Finite 8080))]
     = [(''server.port'', SFloat (Finite 8080))] \<and>
   duplicates [(''feature.on'', SInt 2)] [(''feature.on'', SBool True)] = [] \<and>
   duplicates [(''ratio'', SInt 8)] [(''ratio'', SFloat (Finite (17 / 2)))] = [] \<and>
   duplicates [(''feature.on'', SStr ''1'')] [(''feature.on'', SInt 1)] = [] \<and>
   duplicates [(''other'', SInt 1)] [(''feature.on'', SBool True)] = [] \<and>
   compare_and_report
     (\<lambda>p. if p = ''application.yaml''
          then Inr [YDict [(KStr ''feature'', YDict [(KStr ''on'', YScalar (SInt 1)),
                                                     (KStr ''level'', YScalar (SInt 2))]),
                           (KStr ''server'', YDict [(KStr ''port'', YScalar (SInt 8080))]),
                           (KStr ''only_base'', YScalar (SInt 1))]]
          else Inr [YDict [(KStr ''server'',
                              YDict [(KStr ''port'', YScalar (SFloat (Finite 8080)))]),
                           (KStr ''feature'', YDict [(KStr ''level'', YScalar (SBool True)),
                                                     (KStr ''on'', YScalar (SBool True))])]])
     ''application.yaml'' ''application-dev.yaml''
     = ([DuplicateKey ''application-dev.yaml'' ''feature.on'' (SBool True),
         DuplicateKey ''application-dev.yaml'' ''server.port'' (SFloat (Finite 8080))], 2)"
proof -
  have tie: "(key, v) \<in> set prof_flat \<Longrightarrow> map_of base_flat key = Some b \<Longrightarrow>
      ((key, v) \<in> set (duplicates base_flat prof_flat) \<longleftrightarrow> py_eq b v)" for v b
    by (simp add: duplicates_def)
  have e: "compare_and_report
     (\<lambda>p. if p = ''application.yaml''
          then Inr [YDict [(KStr ''feature'', YDict [(KStr ''on'', YScalar (SInt 1)),
                                                     (KStr ''level'', YScalar (SInt 2))]),
                           (KStr ''server'', YDict [(KStr ''port'', YScalar (SInt 8080))]),
                           (KStr ''only_base'', YScalar (SInt 1))]]
          else Inr [YDict [(KStr ''server'',
                              YDict [(KStr ''port'', YScalar (SFloat (Finite 8080)))]),
                           (KStr ''feature'', YDict [(KStr ''level'', YScalar (SBool True)),
                                                     (KStr ''on'', YScalar (SBool True))])]])
     ''application.yaml'' ''application-dev.yaml''
     = ([DuplicateKey ''application-dev.yaml'' ''feature.on'' (SBool True),
         DuplicateKey ''application-dev.yaml'' ''server.port'' (SFloat (Finite 8080))], 2)"
    by (simp add: duplicates_def compare_and_report_def load_yaml_merged_def flatten_def
        dict_key_def key_eq_def)
  have c: "duplicates [(''feature.on'', SInt 1)] [(''feature.on'', SBool True)]
             = [(''feature.on'', SBool True)]"
    "duplicates [(''feature.on'', SBool True)] [(''feature.on'', SInt 1)]
             = [(''feature.on'', SInt 1)]"
    "duplicates [(''feature.off'', SInt 0)] [(''feature.off'', SBool False)]
             = [(''feature.off'', SBool False)]"
    "duplicates [(''server.port'', SInt 8080)] [(''server.port'', SFloat (Finite 8080))]
             = [(''server.port'', SFloat (Finite 8080))]"
    "duplicates [(''feature.on'', SInt 2)] [(''feature.on'', SBool True)] = []"
    "duplicates [(''ratio'', SInt 8)] [(''ratio'', SFloat (Finite (17 / 2)))] = []"
    "duplicates [(''feature.on'', SStr ''1'')] [(''feature.on'', SInt 1)] = []"
    "duplicates [(''other'', SInt 1)] [(''feature.on'', SBool True)] = []"
    by (simp_all add: duplicates_def)
  show ?thesis
    using tie[of "SBool True" "SInt 1"] tie[of "SInt 1" "SBool True"]
      tie[of "SBool False" "SInt 0"] tie[of "SInt 0" "SBool False"]
      tie[of "SFloat (Finite (of_int i))" "SInt i"] tie[of "SInt i" "SFloat (Finite (of_int i))"]
      tie[of val base_val]
    by (simp add: e c)
qed

theorem cross_kind_equal_values_are_duplicates_witness:
  "(''a'', SBool True) \<in> set [(''c'', SBool True), (''b'', SFloat (Finite (of_int 8080))),
                                 (''a'', SBool True)] \<and>
   map_of [(''a'', SInt 1), (''b'', SInt 8080), (''c'', SInt 2), (''d'', SInt 1)] ''a''
     = Some (SInt 1) \<and>
   (''a'', SBool True) \<in> set (duplicates
       [(''a'', SInt 1), (''b'', SInt 8080), (''c'', SInt 2), (''d'', SInt 1)]
       [(''c'', SBool True), (''b'', SFloat (Finite (of_int 8080))), (''a'', SBool True)]) \<and>
   (''b'', SFloat (Finite (of_int 8080))) \<in> set (duplicates
       [(''a'', SInt 1), (''b'', SInt 8080), (''c'', SInt 2), (''d'', SInt 1)]
       [(''c'', SBool True), (''b'', SFloat (Finite (of_int 8080))), (''a'', SBool True)]) \<and>
   (''c'', SBool True) \<notin> set (duplicates
       [(''a'', SInt 1), (''b'', SInt 8080), (''c'', SInt 2), (''d'', SInt 1)]
       [(''c'', SBool True), (''b'', SFloat (Finite (of_int 8080))), (''a'', SBool True)])"
  using cross_kind_equal_values_are_duplicates [where key = "''a''"
      and prof_flat = "[(''c'', SBool True), (''b'', SFloat (Finite (of_int 8080))), (''a'', SBool True)]"
      and base_flat = "[(''a'', SInt 1), (''b'', SInt 8080), (''c'', SInt 2), (''d'', SInt 1)]"
      and i = 8080 and val = "SBool True" and base_val = "SInt 1"]
    cross_kind_equal_values_are_duplicates [where key = "''b''"
      and prof_flat = "[(''c'', SBool True), (''b'', SFloat (Finite (of_int 8080))), (''a'', SBool True)]"
      and base_flat = "[(''a'', SInt 1), (''b'', SInt 8080), (''c'', SInt 2), (''d'', SInt 1)]"
      and i = 8080 and val = "SBool True" and base_val = "SInt 1"]
    cross_kind_equal_values_are_duplicates [where key = "''c''"
      and prof_flat = "[(''c'', SBool True), (''b'', SFloat (Finite (of_int 8080))), (''a'', SBool True)]"
      and base_flat = "[(''a'', SInt 1), (''b'', SInt 8080), (''c'', SInt 2), (''d'', SInt 1)]"
      and i = 8080 and val = "SBool True" and base_val = "SInt 2"]
  by simp

section \<open>The merger\<close>

text \<open>
  Claim C2. In \<^verbatim>\<open>deep_merge(a, b)\<close> a key of \<^verbatim>\<open>b\<close> whose values in \<^verbatim>\<open>a\<close> and in \<^verbatim>\<open>b\<close> are both
  mappings is bound to the merge of the two; every other key of \<^verbatim>\<open>b\<close> is bound to the value
  \<^verbatim>\<open>b\<close> gives it; a key that \<^verbatim>\<open>b\<close> lacks keeps what \<^verbatim>\<open>a\<close> gives it. Keys are looked up as
  Python looks them up, and \<^verbatim>\<open>b\<close>, a \<^verbatim>\<open>dict\<close>, holds no key twice.
\<close>

theorem deep_merge_lookup:
  "distinct_keys b \<Longrightarrow>
   ydict_get (deep_merge a b) k =
     (case ydict_get b k of
        None \<Rightarrow> ydict_get a k
      | Some v \<Rightarrow>
          Some (case (ydict_get a k, v) of
                  (Some (YDict x), YDict y) \<Rightarrow> YDict (deep_merge x y)
                | _ \<Rightarrow> v))"
proof (induction b arbitrary: a)
  case Nil
  then show ?case by simp
next
  case (Cons kv b)
  obtain k' v' where kv: "kv = (k', v')" by (cases kv)
  from Cons.prems kv have d: "distinct_keys b" and nb: "ydict_get b k' = None" by simp_all
  show ?case
  proof (cases "key_eq k' k")
    case True
    from True have ga: "ydict_get a k' = ydict_get a k" by (rule ydict_get_cong)
    from True nb have "ydict_get b k = None" by (simp add: ydict_get_cong[OF True])
    then show ?thesis using True kv ga Cons.IH[OF d]
      by (auto simp: ydict_get_set split: option.splits yaml.splits)
  next
    case False
    then show ?thesis using kv Cons.IH[OF d]
      by (auto simp: ydict_get_set split: option.splits yaml.splits)
  qed
qed

theorem deep_merge_lookup_witness:
  "distinct_keys [(KStr ''a'', YDict [(KStr ''y'', YScalar (SInt 2))]),
                  (KBool True, YScalar (SInt 5))] \<and>
   ydict_get (deep_merge
       [(KStr ''a'', YDict [(KStr ''x'', YScalar (SInt 1))]),
        (KInt 1, YDict [(KStr ''z'', YScalar SNone)]),
        (KStr ''c'', YScalar (SStr ''kept''))]
       [(KStr ''a'', YDict [(KStr ''y'', YScalar (SInt 2))]),
        (KBool True, YScalar (SInt 5))]) (KStr ''a'')
     = Some (YDict [(KStr ''x'', YScalar (SInt 1)), (KStr ''y'', YScalar (SInt 2))]) \<and>
   ydict_get (deep_merge
       [(KStr ''a'', YDict [(KStr ''x'', YScalar (SInt 1))]),
        (KInt 1, YDict [(KStr ''z'', YScalar SNone)]),
        (KStr ''c'', YScalar (SStr ''kept''))]
       [(KStr ''a'', YDict [(KStr ''y'', YScalar (SInt 2))]),
        (KBool True, YScalar (SInt 5))]) (KInt 1)
     = Some (YScalar (SInt 5)) \<and>
   ydict_get (deep_merge
       [(KStr ''a'', YDict [(KStr ''x'', YScalar (SInt 1))]),
        (KInt 1, YDict [(KStr ''z'', YScalar SNone)]),
        (KStr ''c'', YScalar (SStr ''kept''))]
       [(KStr ''a'', YDict [(KStr ''y'', YScalar (SInt 2))]),
        (KBool True, YScalar (SInt 5))]) (KStr ''c'')
     = Some (YScalar (SStr ''kept''))"
  using deep_merge_lookup [of
      "[(KStr ''a'', YDict [(KStr ''y'', YScalar (SInt 2))]), (KBool True, YScalar (SInt 5))]"
      "[(KStr ''a'', YDict [(KStr ''x'', YScalar (SInt 1))]),
        (KInt 1, YDict [(KStr ''z'', YScalar SNone)]),
        (KStr ''c'', YScalar (SStr ''kept''))]"
      "KStr ''a''"]
    deep_merge_lookup [of
      "[(KStr ''a'', YDict [(KStr ''y'', YScalar (SInt 2))]), (KBool True, YScalar (SInt 5))]"
      "[(KStr ''a'', YDict [(KStr ''x'', YScalar (SInt 1))]),
        (KInt 1, YDict [(KStr ''z'', YScalar SNone)]),
        (KStr ''c'', YScalar (SStr ''kept''))]"
      "KInt 1"]
    deep_merge_lookup [of
      "[(KStr ''a'', YDict [(KStr ''y'', YScalar (SInt 2))]), (KBool True, YScalar (SInt 5))]"
      "[(KStr ''a'', YDict [(KStr ''x'', YScalar (SInt 1))]),
        (KInt 1, YDict [(KStr ''z'', YScalar SNone)]),
        (KStr ''c'', YScalar (SStr ''kept''))]"
      "KStr ''c''"]
  by (simp add: key_eq_def)

text \<open>
  Claim C9. When every document of a file is null, loading it gives the empty mapping and
  flattening that gives no entry; and a null document anywhere in a file leaves the merge
  of the others as it is.
\<close>

theorem null_documents_contribute_nothing:
  assumes "\<forall>d\<in>set docs. d = YScalar SNone" and "fs path = Inr docs"
  shows "load_yaml_merged fs path = Inr [] \<and>
         flatten (YDict (merge_docs docs [])) [] = [] \<and>
         merge_docs (before @ YScalar SNone # after) merged = merge_docs (before @ after) merged"
  using assms by (simp add: load_yaml_merged_def merge_docs_null merge_docs_append flatten_def)

theorem null_documents_contribute_nothing_witness:
  "set [YScalar SNone, YScalar SNone] = {YScalar SNone} \<and>
   load_yaml_merged (\<lambda>p. Inr [YScalar SNone, YScalar SNone]) ''application.yaml'' = Inr [] \<and>
   flatten (YDict (merge_docs [YScalar SNone, YScalar SNone] [])) [] = [] \<and>
   merge_docs
     ([YDict [(KStr ''a'', YScalar (SInt 1))]] @ YScalar SNone # [YDict [(KStr ''b'', YScalar (SInt 2))]]) []
     = [(KStr ''a'', YScalar (SInt 1)), (KStr ''b'', YScalar (SInt 2))]"
  using null_documents_contribute_nothing [of "[YScalar SNone, YScalar SNone]"
      "\<lambda>p. Inr [YScalar SNone, YScalar SNone]" "''application.yaml''"
      "[YDict [(KStr ''a'', YScalar (SInt 1))]]" "[YDict [(KStr ''b'', YScalar (SInt 2))]]" "[]"]
  by (simp add: key_eq_def)

text \<open>
  Claim C8. A document whose root is not a mapping is merged as the mapping with the single
  key \<^verbatim>\<open>_\<close>, so a file whose only document is a bare scalar flattens to the one path \<^verbatim>\<open>_\<close>
  and not to the empty path. The documents meant are those that reach the wrapper: a null
  document is skipped before it (claim C9), which the last equation records.
\<close>

theorem non_null_root_wrapped:
  "(d \<noteq> YScalar SNone \<and> (\<forall>m. d \<noteq> YDict m) \<longrightarrow>
      merge_docs (d # docs) merged = merge_docs docs (deep_merge merged [(KStr ''_'', d)])) \<and>
   (s \<noteq> SNone \<and> fs path = Inr [YScalar s] \<longrightarrow>
      load_yaml_merged fs path = Inr [(KStr ''_'', YScalar s)] \<and>
      flatten (YDict [(KStr ''_'', YScalar s)]) [] = [(''_'', s)]) \<and>
   merge_docs (YScalar SNone # docs) merged = merge_docs docs merged"
  by (cases d) (auto simp: load_yaml_merged_def flatten_def dict_key_def key_eq_def)

theorem non_null_root_wrapped_witness:
  "YList [YScalar (SInt 1)] \<noteq> YScalar SNone \<and> (\<forall>m. YList [YScalar (SInt 1)] \<noteq> YDict m) \<and>
   merge_docs (YList [YScalar (SInt 1)] # []) [(KStr ''a'', YScalar (SInt 2))]
     = [(KStr ''a'', YScalar (SInt 2)), (KStr ''_'', YList [YScalar (SInt 1)])] \<and>
   SInt 7 \<noteq> SNone \<and>
   load_yaml_merged (\<lambda>p. Inr [YScalar (SInt 7)]) ''application.yml''
     = Inr [(KStr ''_'', YScalar (SInt 7))] \<and>
   flatten (YDict [(KStr ''_'', YScalar (SInt 7))]) [] = [(''_'', SInt 7)]"
  using non_null_root_wrapped [of "YList [YScalar (SInt 1)]" "[]" "[(KStr ''a'', YScalar (SInt 2))]"
      "SInt 7" "\<lambda>p. Inr [YScalar (SInt 7)]" "''application.yml''"]
  by (simp add: key_eq_def)

section \<open>The flattener\<close>

text \<open>
  Claim C5. Flattening stores every leaf under the canonical rendering of its position
  (fields joined by a dot, none before the first; indices as \<^verbatim>\<open>[i]\<close> with no dot), then
  drops the empty path; and the example of the two routes gives exactly the two paths
  \<^verbatim>\<open>routes[0].path\<close> and \<^verbatim>\<open>routes[1].path\<close>.
\<close>

theorem flatten_canonical_paths:
  "flatten D [] =
     filter (\<lambda>(k, v). k \<noteq> [])
       (store_all (map (\<lambda>(pos, s). (render_path pos, s)) (leaves D [])) []) \<and>
   flatten (YDict [(KStr ''routes'', YList [YDict [(KStr ''path'', YScalar (SStr ''/a''))],
                                      YDict [(KStr ''path'', YScalar (SStr ''/b''))]])]) []
     = [(''routes[0].path'', SStr ''/a''), (''routes[1].path'', SStr ''/b'')]"
proof
  show "flatten D [] =
     filter (\<lambda>(k, v). k \<noteq> [])
       (store_all (map (\<lambda>(pos, s). (render_path pos, s)) (leaves D [])) [])"
    using assigns_leaves(1)[of D "[]"] by (simp add: flatten_def walk_store render_path_def)
  show "flatten (YDict [(KStr ''routes'', YList [YDict [(KStr ''path'', YScalar (SStr ''/a''))],
                                      YDict [(KStr ''path'', YScalar (SStr ''/b''))]])]) []
     = [(''routes[0].path'', SStr ''/a''), (''routes[1].path'', SStr ''/b'')]"
    by (simp add: flatten_def dict_key_def list_key_def str_nat_small)
qed

theorem flatten_canonical_paths_witness:
  "leaves (YDict [(KStr ''http'', YDict [(KStr ''routes'', YList [YScalar (SStr ''/a''), YScalar SNone])]),
                  (KStr ''debug'', YScalar (SBool False))]) []
     = [([Field ''http'', Field ''routes'', Index 0], SStr ''/a''),
        ([Field ''http'', Field ''routes'', Index 1], SNone),
        ([Field ''debug''], SBool False)] \<and>
   flatten (YDict [(KStr ''http'', YDict [(KStr ''routes'', YList [YScalar (SStr ''/a''), YScalar SNone])]),
                   (KStr ''debug'', YScalar (SBool False))]) []
     = [(''http.routes[0]'', SStr ''/a''), (''http.routes[1]'', SNone), (''debug'', SBool False)]"
  using flatten_canonical_paths [of
      "YDict [(KStr ''http'', YDict [(KStr ''routes'', YList [YScalar (SStr ''/a''), YScalar SNone])]),
              (KStr ''debug'', YScalar (SBool False))]"]
  by (simp add: render_path_def store_all_def str_nat_small)

text \<open>
  Claim C3, as amended. The mapping that \<^verbatim>\<open>flatten\<close> returns never holds a path twice. The
  pairs stored while walking have pairwise different paths when, in every mapping of the
  document, the keys render under \<^verbatim>\<open>str\<close> to pairwise different texts that are non-empty and
  free of dots and opening brackets.
\<close>

theorem flatten_paths_distinct:
  "distinct (map fst (flatten D prefix)) \<and>
   (plain_keys D \<longrightarrow> distinct (map fst (assigns D prefix)))"
  by (simp add: distinct_flatten assigns_distinct(1))

theorem flatten_paths_distinct_witness:
  "plain_keys (YDict [(KStr ''a'', YDict [(KStr ''b'', YScalar (SInt 2)),
                                          (KInt 1, YScalar (SInt 3))]),
                      (KBool True, YList [YScalar SNone, YScalar (SStr ''x'')])]) \<and>
   distinct (map fst (assigns
       (YDict [(KStr ''a'', YDict [(KStr ''b'', YScalar (SInt 2)),
                                   (KInt 1, YScalar (SInt 3))]),
               (KBool True, YList [YScalar SNone, YScalar (SStr ''x'')])]) [])) \<and>
   assigns (YDict [(KStr ''a'', YDict [(KStr ''b'', YScalar (SInt 2)),
                                       (KInt 1, YScalar (SInt 3))]),
                   (KBool True, YList [YScalar SNone, YScalar (SStr ''x'')])]) []
     = [(''a.b'', SInt 2), (''a.1'', SInt 3), (''True[0]'', SNone), (''True[1]'', SStr ''x'')]"
  using flatten_paths_distinct [of
      "YDict [(KStr ''a'', YDict [(KStr ''b'', YScalar (SInt 2)),
                                  (KInt 1, YScalar (SInt 3))]),
              (KBool True, YList [YScalar SNone, YScalar (SStr ''x'')])]" "[]"]
  by (simp add: plain_key_def dict_key_def list_key_def str_nat_small str_int_small)

text \<open>
  The claim as worded fails: a key with a dot in it renders like a nested key, the walk
  stores two pairs under the path \<^verbatim>\<open>a.b\<close>, and the second value replaces the first. So it is
  with the int key \<^verbatim>\<open>1\<close> beside the string key \<^verbatim>\<open>"1"\<close>, two keys of one mapping that render
  alike.
\<close>

theorem flatten_paths_distinct_counterexample:
  "distinct_keys [(KStr ''a.b'', YScalar (SInt 1)),
                  (KStr ''a'', YDict [(KStr ''b'', YScalar (SInt 2))])] \<and>
   assigns (YDict [(KStr ''a.b'', YScalar (SInt 1)),
                   (KStr ''a'', YDict [(KStr ''b'', YScalar (SInt 2))])]) []
     = [(''a.b'', SInt 1), (''a.b'', SInt 2)] \<and>
   \<not> distinct (map fst
       (assigns (YDict [(KStr ''a.b'', YScalar (SInt 1)),
                        (KStr ''a'', YDict [(KStr ''b'', YScalar (SInt 2))])]) [])) \<and>
   flatten (YDict [(KStr ''a.b'', YScalar (SInt 1)),
                   (KStr ''a'', YDict [(KStr ''b'', YScalar (SInt 2))])]) []
     = [(''a.b'', SInt 2)] \<and>
   distinct_keys [(KInt 1, YScalar (SStr ''a'')), (KStr ''1'', YScalar (SStr ''b''))] \<and>
   assigns (YDict [(KInt 1, YScalar (SStr ''a'')), (KStr ''1'', YScalar (SStr ''b''))]) []
     = [(''1'', SStr ''a''), (''1'', SStr ''b'')] \<and>
   flatten (YDict [(KInt 1, YScalar (SStr ''a'')), (KStr ''1'', YScalar (SStr ''b''))]) []
     = [(''1'', SStr ''b'')]"
  by (simp add: flatten_def dict_key_def key_eq_def str_int_small)

text \<open>
  Claim C4, as amended. A scalar at the root is stored under the empty path and
  \<^verbatim>\<open>flatten\<close> drops that entry, so flattening the bare scalar itself gives nothing. A file
  whose only document is \<^verbatim>\<open>true\<close> does not come to that: loading wraps the document, and
  flattening what was loaded gives the one path \<^verbatim>\<open>_\<close> with the value \<^verbatim>\<open>true\<close>.
\<close>

theorem root_scalar_flatten:
  "walk (YScalar s) [] [] = [([], s)] \<and>
   flatten (YScalar s) [] = [] \<and>
   (fs path = Inr [YScalar (SBool True)] \<longrightarrow>
      load_yaml_merged fs path = Inr [(KStr ''_'', YScalar (SBool True))] \<and>
      flatten (YDict [(KStr ''_'', YScalar (SBool True))]) [] = [(''_'', SBool True)])"
  by (simp add: load_yaml_merged_def flatten_def dict_key_def)

theorem root_scalar_flatten_witness:
  "walk (YScalar (SBool True)) [] [] = [([], SBool True)] \<and>
   flatten (YScalar (SBool True)) [] = [] \<and>
   load_yaml_merged (\<lambda>p. Inr [YScalar (SBool True)]) ''application.yml''
     = Inr [(KStr ''_'', YScalar (SBool True))] \<and>
   flatten (YDict [(KStr ''_'', YScalar (SBool True))]) [] = [(''_'', SBool True)]"
  using root_scalar_flatten [of "SBool True" "\<lambda>p. Inr [YScalar (SBool True)]"
      "''application.yml''"]
  by simp

text \<open>
  The claim as worded fails: the file with the single document \<^verbatim>\<open>true\<close> loads to the mapping
  with the key \<^verbatim>\<open>_\<close>, and flattening it is not empty.
\<close>

theorem root_scalar_file_counterexample:
  "load_yaml_merged (\<lambda>p. Inr [YScalar (SBool True)]) ''application.yml''
     = Inr [(KStr ''_'', YScalar (SBool True))] \<and>
   flatten (YDict [(KStr ''_'', YScalar (SBool True))]) [] \<noteq> []"
  by (simp add: load_yaml_merged_def flatten_def dict_key_def)

section \<open>Load failures\<close>

text \<open>
  Claim C7. When the base file fails to load, or the base loads and the profile fails,
  \<^verbatim>\<open>compare_and_report\<close> prints one diagnostic and returns 0; no error leaves it. The loop
  over the profiles then goes on with the profiles that follow, its total unchanged; and a
  folder whose base fails counts 0, after which the walk goes on with the folders that
  follow.
\<close>

theorem load_failure_contributes_nothing:
  "(fs base_path = Inl e \<longrightarrow>
      compare_and_report fs base_path profile_path = ([BaseLoadFailed base_path e], 0)) \<and>
   (fs base_path = Inr docs \<and> fs profile_path = Inl e \<longrightarrow>
      compare_and_report fs base_path profile_path = ([ProfileLoadFailed profile_path e], 0)) \<and>
   (fs base_path = Inl e \<or> fs profile_path = Inl e \<longrightarrow>
      compare_profiles fs base_path (before @ profile_path # after) acc =
        compare_profiles fs base_path after
          (fst (compare_profiles fs base_path before acc) @
             fst (compare_and_report fs base_path profile_path),
           snd (compare_profiles fs base_path before acc))) \<and>
   (base_file f = Some base_path \<and> fs base_path = Inl e \<longrightarrow>
      snd (process_folder fs f) = 0 \<and>
      walk_and_check fs (fbefore @ f # fafter) facc =
        walk_and_check fs fafter
          (fst (walk_and_check fs fbefore facc) @ fst (process_folder fs f),
           snd (walk_and_check fs fbefore facc)))"
  by (auto simp: compare_base_failed compare_profile_failed compare_profiles_append
      walk_and_check_append compare_failed_count process_folder_base_failed)

theorem load_failure_contributes_nothing_witness:
  "(\<lambda>p. if p = ''application-dev.yml'' then Inl (LoadError ''bad'')
         else Inr [YDict [(KStr ''a'', YScalar (SInt 1))]]) ''application-dev.yml''
     = Inl (LoadError ''bad'') \<and>
   compare_and_report
     (\<lambda>p. if p = ''application-dev.yml'' then Inl (LoadError ''bad'')
         else Inr [YDict [(KStr ''a'', YScalar (SInt 1))]])
     ''application.yml'' ''application-dev.yml''
     = ([ProfileLoadFailed ''application-dev.yml'' (LoadError ''bad'')], 0) \<and>
   compare_profiles
     (\<lambda>p. if p = ''application-dev.yml'' then Inl (LoadError ''bad'')
         else Inr [YDict [(KStr ''a'', YScalar (SInt 1))]])
     ''application.yml'' ([] @ ''application-dev.yml'' # [''application-prod.yml'']) ([], 0)
     = ([ProfileLoadFailed ''application-dev.yml'' (LoadError ''bad''),
         DuplicateKey ''application-prod.yml'' ''a'' (SInt 1)], 1) \<and>
   (\<lambda>p. if p = ''a/application.yml'' then Inl (LoadError ''bad'')
         else Inr [YDict [(KStr ''k'', YScalar (SInt 1))]]) ''a/application.yml''
     = Inl (LoadError ''bad'') \<and>
   compare_and_report
     (\<lambda>p. if p = ''a/application.yml'' then Inl (LoadError ''bad'')
         else Inr [YDict [(KStr ''k'', YScalar (SInt 1))]])
     ''a/application.yml'' ''a/application-dev.yml''
     = ([BaseLoadFailed ''a/application.yml'' (LoadError ''bad'')], 0) \<and>
   walk_and_check
     (\<lambda>p. if p = ''a/application.yml'' then Inl (LoadError ''bad'')
         else Inr [YDict [(KStr ''k'', YScalar (SInt 1))]])
     ([] @ \<lparr>folder_name = ''a'', base_file = Some ''a/application.yml'',
             profile_files = [''a/application-dev.yml'']\<rparr> #
      [\<lparr>folder_name = ''b'', base_file = Some ''b/application.yml'',
        profile_files = [''b/application-dev.yml'']\<rparr>]) ([], 0)
     = ([FolderHeader ''a'', BaseHeader ''a/application.yml'',
         BaseLoadFailed ''a/application.yml'' (LoadError ''bad''), NoDuplicates,
         FolderHeader ''b'', BaseHeader ''b/application.yml'',
         DuplicateKey ''b/application-dev.yml'' ''k'' (SInt 1)], 1)"
  using load_failure_contributes_nothing [of
      "\<lambda>p. if p = ''application-dev.yml'' then Inl (LoadError ''bad'')
         else Inr [YDict [(KStr ''a'', YScalar (SInt 1))]]"
      "''application.yml''" "LoadError ''bad''" "''application-dev.yml''"
      "[YDict [(KStr ''a'', YScalar (SInt 1))]]" "[]" "[''application-prod.yml'']" "([], 0)"]
    load_failure_contributes_nothing [of
      "\<lambda>p. if p = ''a/application.yml'' then Inl (LoadError ''bad'')
         else Inr [YDict [(KStr ''k'', YScalar (SInt 1))]]"
      "''a/application.yml''" "LoadError ''bad''" "''a/application-dev.yml''"
      "[]" "[]" "[]" "([], 0)"
      "\<lparr>folder_name = ''a'', base_file = Some ''a/application.yml'',
        profile_files = [''a/application-dev.yml'']\<rparr>"
      "[]"
      "[\<lparr>folder_name = ''b'', base_file = Some ''b/application.yml'',
         profile_files = [''b/application-dev.yml'']\<rparr>]" "([], 0)"]
  by (simp add: process_folder_def compare_and_report_def load_yaml_merged_def flatten_def
      duplicates_def dict_key_def key_eq_def)

end
